theory Spec2Isabelle
  imports Main "HOL-Library.Code_Target_Nat"
begin

section \<open>Bytes and UTF-8\<close>

text \<open>
  Go strings and byte slices are sequences of bytes; they are modelled as \<open>string\<close>
  (a list of 8-bit characters). \<open>byte c\<close> is the numeric value of the byte \<open>c\<close>.
\<close>

abbreviation byte :: "char \<Rightarrow> nat" where
  "byte c \<equiv> of_char c"

definition is_space :: "char \<Rightarrow> bool" where
  "is_space c = (c = CHR '' '' \<or> c = CHR 0x09 \<or> c = CHR 0x0A \<or> c = CHR 0x0D)"

definition skip_ws :: "string \<Rightarrow> string" where
  "skip_ws s = dropWhile is_space s"

definition is_digit :: "char \<Rightarrow> bool" where
  "is_digit c = (48 \<le> byte c \<and> byte c \<le> 57)"

definition hexval :: "char \<Rightarrow> nat option" where
  "hexval c =
     (if 48 \<le> byte c \<and> byte c \<le> 57 then Some (byte c - 48)
      else if 97 \<le> byte c \<and> byte c \<le> 102 then Some (byte c - 87)
      else if 65 \<le> byte c \<and> byte c \<le> 70 then Some (byte c - 55)
      else None)"

definition hexdigit :: "nat \<Rightarrow> char" where
  "hexdigit n = ''0123456789abcdef'' ! (n mod 16)"

text \<open>
  \<open>utf8_lead b\<close> follows the table of Go's \<open>unicode/utf8\<close>: for a lead byte it gives
  the number of continuation bytes and the range allowed for the first of them.
\<close>

definition utf8_lead :: "nat \<Rightarrow> (nat \<times> nat \<times> nat) option" where
  "utf8_lead b =
     (if 0xC2 \<le> b \<and> b \<le> 0xDF then Some (1, 0x80, 0xBF)
      else if b = 0xE0 then Some (2, 0xA0, 0xBF)
      else if 0xE1 \<le> b \<and> b \<le> 0xEC then Some (2, 0x80, 0xBF)
      else if b = 0xED then Some (2, 0x80, 0x9F)
      else if b = 0xEE \<or> b = 0xEF then Some (2, 0x80, 0xBF)
      else if b = 0xF0 then Some (3, 0x90, 0xBF)
      else if 0xF1 \<le> b \<and> b \<le> 0xF3 then Some (3, 0x80, 0xBF)
      else if b = 0xF4 then Some (3, 0x80, 0x8F)
      else None)"

definition is_cont :: "char \<Rightarrow> bool" where
  "is_cont c = (0x80 \<le> byte c \<and> byte c \<le> 0xBF)"

text \<open>
  \<open>utf8_extra c s\<close>: the bytes \<open>c # s\<close> start with a well-formed multi-byte rune that has
  that many continuation bytes; \<open>None\<close> is \<open>utf8.DecodeRune\<close> answering
  \<open>(RuneError, 1)\<close>.
\<close>

definition utf8_extra :: "char \<Rightarrow> string \<Rightarrow> nat option" where
  "utf8_extra c s =
     (case utf8_lead (byte c) of
        None \<Rightarrow> None
      | Some (k, lo, hi) \<Rightarrow>
          (case s of
             [] \<Rightarrow> None
           | c1 # _ \<Rightarrow>
               if k \<le> length s \<and> lo \<le> byte c1 \<and> byte c1 \<le> hi \<and> list_all is_cont (take k s)
               then Some k else None))"


definition replacement :: string where
  "replacement = [CHR 0xEF, CHR 0xBF, CHR 0xBD]"

definition utf8_encode :: "nat \<Rightarrow> string" where
  "utf8_encode r =
     (if r < 0x80 then [char_of r]
      else if r < 0x800 then [char_of (0xC0 + r div 64), char_of (0x80 + r mod 64)]
      else if 0xD800 \<le> r \<and> r < 0xE000 then replacement
      else if r < 0x10000 then
        [char_of (0xE0 + r div 4096), char_of (0x80 + (r div 64) mod 64), char_of (0x80 + r mod 64)]
      else if r < 0x110000 then
        [char_of (0xF0 + r div 262144), char_of (0x80 + (r div 4096) mod 64),
         char_of (0x80 + (r div 64) mod 64), char_of (0x80 + r mod 64)]
      else replacement)"

section \<open>The JSON library (encoding/json)\<close>

text \<open>
  The program calls \<open>json.Unmarshal\<close> and \<open>json.Marshal\<close> of Go's standard library.
  They are modelled on bytes, after the library's scanner, decoder and encoder: the
  grammar of RFC 8259, strings coerced to well-formed UTF-8 in both directions, and the
  HTML-safe escaping that \<open>json.Marshal\<close> applies. A number is kept as its literal
  (the library turns it into a float64; floating point is not modelled).
\<close>

datatype json =
    JNull
  | JBool bool
  | JNumber string
  | JString string
  | JArray "json list"
  | JObject "(string \<times> json) list"

subsection \<open>String literals\<close>

definition hex4 :: "string \<Rightarrow> nat option" where
  "hex4 s =
     (case s of
        a # b # c # d # _ \<Rightarrow>
          (case (hexval a, hexval b, hexval c, hexval d) of
             (Some x, Some y, Some z, Some w) \<Rightarrow> Some (x * 4096 + y * 256 + z * 16 + w)
           | _ \<Rightarrow> None)
      | _ \<Rightarrow> None)"

text \<open>\<open>getu4\<close>: the code unit of an escape \<open>\uXXXX\<close> at the head of the input.\<close>

definition getu4 :: "string \<Rightarrow> nat option" where
  "getu4 s =
     (case s of
        b # u # r \<Rightarrow> if b = CHR 0x5C \<and> u = CHR ''u'' then hex4 r else None
      | _ \<Rightarrow> None)"

definition unescape :: "char \<Rightarrow> char option" where
  "unescape e =
     (if e = CHR 0x22 \<or> e = CHR 0x5C \<or> e = CHR ''/'' then Some e
      else if e = CHR ''b'' then Some (CHR 0x08)
      else if e = CHR ''f'' then Some (CHR 0x0C)
      else if e = CHR ''n'' then Some (CHR 0x0A)
      else if e = CHR ''r'' then Some (CHR 0x0D)
      else if e = CHR ''t'' then Some (CHR 0x09)
      else None)"

definition emit :: "string \<Rightarrow> (string \<times> string) option \<Rightarrow> (string \<times> string) option" where
  "emit out r = (case r of None \<Rightarrow> None | Some (str, rest) \<Rightarrow> Some (out @ str, rest))"

text \<open>
  \<open>unquote s\<close> reads a string literal whose opening quote has been consumed: the decoded
  bytes and the input after the closing quote (the scanner's string states together with
  the decoder's \<open>unquote\<close>).
\<close>

fun unquote :: "string \<Rightarrow> (string \<times> string) option" where
  "unquote [] = None"
| "unquote (c # cs) =
     (if c = CHR 0x22 then Some ([], cs)
      else if c = CHR 0x5C then
        (case cs of
           [] \<Rightarrow> None
         | e # cs' \<Rightarrow>
             if e = CHR ''u'' then
               (case hex4 cs' of
                  None \<Rightarrow> None
                | Some rr \<Rightarrow>
                    if 0xD800 \<le> rr \<and> rr < 0xE000 then
                      (case getu4 (drop 4 cs') of
                         None \<Rightarrow> emit replacement (unquote (drop 4 cs'))
                       | Some rr1 \<Rightarrow>
                           if rr < 0xDC00 \<and> 0xDC00 \<le> rr1 \<and> rr1 < 0xE000
                           then emit (utf8_encode ((rr - 0xD800) * 1024 + (rr1 - 0xDC00) + 0x10000))
                                  (unquote (drop 10 cs'))
                           else emit replacement (unquote (drop 4 cs')))
                    else emit (utf8_encode rr) (unquote (drop 4 cs')))
             else
               (case unescape e of
                  None \<Rightarrow> None
                | Some d \<Rightarrow> emit [d] (unquote cs')))
      else if byte c < 0x20 then None
      else if byte c < 0x80 then emit [c] (unquote cs)
      else
        (case utf8_extra c cs of
           None \<Rightarrow> emit replacement (unquote cs)
         | Some k \<Rightarrow> emit (c # take k cs) (unquote (drop k cs))))"

text \<open>The encoder's string escaping (\<open>appendString\<close> with HTML escaping on).\<close>

definition html_safe :: "char \<Rightarrow> bool" where
  "html_safe c =
     (0x20 \<le> byte c \<and> byte c < 0x80 \<and> c \<noteq> CHR 0x22 \<and> c \<noteq> CHR 0x5C \<and>
      c \<noteq> CHR ''<'' \<and> c \<noteq> CHR ''>'' \<and> c \<noteq> CHR ''&'')"

definition escape_ascii :: "char \<Rightarrow> string" where
  "escape_ascii c =
     (if c = CHR 0x22 \<or> c = CHR 0x5C then [CHR 0x5C, c]
      else if c = CHR 0x08 then [CHR 0x5C, CHR ''b'']
      else if c = CHR 0x0C then [CHR 0x5C, CHR ''f'']
      else if c = CHR 0x0A then [CHR 0x5C, CHR ''n'']
      else if c = CHR 0x0D then [CHR 0x5C, CHR ''r'']
      else if c = CHR 0x09 then [CHR 0x5C, CHR ''t'']
      else [CHR 0x5C, CHR ''u'', CHR ''0'', CHR ''0'',
            hexdigit (byte c div 16), hexdigit (byte c mod 16)])"

fun quote_body :: "string \<Rightarrow> string" where
  "quote_body [] = []"
| "quote_body (c # cs) =
     (if byte c < 0x80 then
        (if html_safe c then [c] else escape_ascii c) @ quote_body cs
      else
        (case utf8_extra c cs of
           None \<Rightarrow> [CHR 0x5C, CHR ''u'', CHR ''f'', CHR ''f'', CHR ''f'', CHR ''d''] @ quote_body cs
         | Some k \<Rightarrow>
             if c # take k cs = [CHR 0xE2, CHR 0x80, CHR 0xA8] then
               [CHR 0x5C, CHR ''u'', CHR ''2'', CHR ''0'', CHR ''2'', CHR ''8''] @ quote_body (drop k cs)
             else if c # take k cs = [CHR 0xE2, CHR 0x80, CHR 0xA9] then
               [CHR 0x5C, CHR ''u'', CHR ''2'', CHR ''0'', CHR ''2'', CHR ''9''] @ quote_body (drop k cs)
             else c # take k cs @ quote_body (drop k cs)))"

definition quote :: "string \<Rightarrow> string" where
  "quote s = CHR 0x22 # quote_body s @ [CHR 0x22]"

subsection \<open>Number literals\<close>

definition scan_digits :: "string \<Rightarrow> (string \<times> string) option" where
  "scan_digits s =
     (if takeWhile is_digit s = [] then None
      else Some (takeWhile is_digit s, dropWhile is_digit s))"

definition scan_int :: "string \<Rightarrow> (string \<times> string) option" where
  "scan_int s =
     (case s of
        [] \<Rightarrow> None
      | c # cs \<Rightarrow> if c = CHR ''0'' then Some ([c], cs) else scan_digits s)"

definition scan_frac :: "string \<Rightarrow> (string \<times> string) option" where
  "scan_frac s =
     (case s of
        [] \<Rightarrow> Some ([], s)
      | c # cs \<Rightarrow>
          if c = CHR ''.'' then
            (case scan_digits cs of None \<Rightarrow> None | Some (ds, r) \<Rightarrow> Some (c # ds, r))
          else Some ([], s))"

definition scan_exp :: "string \<Rightarrow> (string \<times> string) option" where
  "scan_exp s =
     (case s of
        [] \<Rightarrow> Some ([], s)
      | c # cs \<Rightarrow>
          if c = CHR ''e'' \<or> c = CHR ''E'' then
            (case cs of
               [] \<Rightarrow> None
             | d # ds \<Rightarrow>
                 if d = CHR ''+'' \<or> d = CHR ''-'' then
                   (case scan_digits ds of None \<Rightarrow> None | Some (es, r) \<Rightarrow> Some (c # d # es, r))
                 else
                   (case scan_digits cs of None \<Rightarrow> None | Some (es, r) \<Rightarrow> Some (c # es, r)))
          else Some ([], s))"

definition scan_number :: "string \<Rightarrow> (string \<times> string) option" where
  "scan_number s =
     (let (sign, s0) = (case s of [] \<Rightarrow> ([], s) | c # cs \<Rightarrow> if c = CHR ''-'' then ([c], cs) else ([], s))
      in case scan_int s0 of
           None \<Rightarrow> None
         | Some (i, s1) \<Rightarrow>
             (case scan_frac s1 of
                None \<Rightarrow> None
              | Some (f, s2) \<Rightarrow>
                  (case scan_exp s2 of
                     None \<Rightarrow> None
                   | Some (e, s3) \<Rightarrow> Some (sign @ i @ f @ e, s3))))"

definition valid_number :: "string \<Rightarrow> bool" where
  "valid_number lit = (scan_number lit = Some (lit, []))"

subsection \<open>Values\<close>

text \<open>
  The scanner refuses arrays and objects nested deeper than \<open>maxNestingDepth\<close>. The
  parser is given the number of brackets open around the value, and fuel, one unit for
  each nested call; \<open>parse_json\<close> gives it more fuel than the input has characters. A
  member of an object is returned with the bytes of its value, which is what a
  \<open>json.RawMessage\<close> field receives.
\<close>

definition maxNestingDepth :: nat where
  "maxNestingDepth = 10000"

text \<open>A value that is not an array or an object: a string, a literal name or a number.\<close>

definition parse_scalar :: "string \<Rightarrow> (json \<times> string) option" where
  "parse_scalar s =
     (case s of
        [] \<Rightarrow> None
      | c # cs \<Rightarrow>
          if c = CHR 0x22 then
            (case unquote cs of None \<Rightarrow> None | Some (str, r) \<Rightarrow> Some (JString str, r))
          else if c = CHR ''t'' then
            (if take 4 s = ''true'' then Some (JBool True, drop 4 s) else None)
          else if c = CHR ''f'' then
            (if take 5 s = ''false'' then Some (JBool False, drop 5 s) else None)
          else if c = CHR ''n'' then
            (if take 4 s = ''null'' then Some (JNull, drop 4 s) else None)
          else
            (case scan_number s of None \<Rightarrow> None | Some (lit, r) \<Rightarrow> Some (JNumber lit, r)))"

text \<open>The key of a member and its colon: the key, and the input where the value starts.\<close>

definition member_key :: "string \<Rightarrow> (string \<times> string) option" where
  "member_key s =
     (case s of
        [] \<Rightarrow> None
      | q # s1 \<Rightarrow>
          if q = CHR 0x22 then
            (case unquote s1 of
               None \<Rightarrow> None
             | Some (k, r1) \<Rightarrow>
                 (case skip_ws r1 of
                    [] \<Rightarrow> None
                  | col # r2 \<Rightarrow> if col = CHR '':'' then Some (k, skip_ws r2) else None))
          else None)"

fun parse_value :: "nat \<Rightarrow> nat \<Rightarrow> string \<Rightarrow> (json \<times> string) option"
  and parse_elements :: "nat \<Rightarrow> nat \<Rightarrow> string \<Rightarrow> (json list \<times> string) option"
  and parse_members :: "nat \<Rightarrow> nat \<Rightarrow> string \<Rightarrow> ((string \<times> string \<times> json) list \<times> string) option"
where
  "parse_value 0 depth s = None"
| "parse_value (Suc n) depth s =
     (case s of
        [] \<Rightarrow> None
      | c # cs \<Rightarrow>
          if c = CHR ''{'' then
            (if depth < maxNestingDepth then
               (case skip_ws cs of
                  [] \<Rightarrow> None
                | d # ds \<Rightarrow>
                    if d = CHR ''}'' then Some (JObject [], ds)
                    else
                      (case parse_members n (Suc depth) (d # ds) of
                         None \<Rightarrow> None
                       | Some (ms, r) \<Rightarrow> Some (JObject (map (\<lambda>(k, raw, v). (k, v)) ms), r)))
             else None)
          else if c = CHR ''['' then
            (if depth < maxNestingDepth then
               (case skip_ws cs of
                  [] \<Rightarrow> None
                | d # ds \<Rightarrow>
                    if d = CHR '']'' then Some (JArray [], ds)
                    else
                      (case parse_elements n (Suc depth) (d # ds) of
                         None \<Rightarrow> None
                       | Some (vs, r) \<Rightarrow> Some (JArray vs, r)))
             else None)
          else parse_scalar s)"
| "parse_elements 0 depth s = None"
| "parse_elements (Suc n) depth s =
     (case parse_value n depth s of
        None \<Rightarrow> None
      | Some (v, r) \<Rightarrow>
          (case skip_ws r of
             [] \<Rightarrow> None
           | d # ds \<Rightarrow>
               if d = CHR '','' then
                 (case parse_elements n depth (skip_ws ds) of
                    None \<Rightarrow> None
                  | Some (vs, r') \<Rightarrow> Some (v # vs, r'))
               else if d = CHR '']'' then Some ([v], ds)
               else None))"
| "parse_members 0 depth s = None"
| "parse_members (Suc n) depth s =
     (case member_key s of
        None \<Rightarrow> None
      | Some (k, s') \<Rightarrow>
          (case parse_value n depth s' of
             None \<Rightarrow> None
           | Some (v, r) \<Rightarrow>
               (case skip_ws r of
                  [] \<Rightarrow> None
                | d # ds \<Rightarrow>
                    if d = CHR '','' then
                      (case parse_members n depth (skip_ws ds) of
                         None \<Rightarrow> None
                       | Some (ms, r') \<Rightarrow> Some ((k, take (length s' - length r) s', v) # ms, r'))
                    else if d = CHR ''}'' then Some ([(k, take (length s' - length r) s', v)], ds)
                    else None)))"

text \<open>A whole text: one value, white space around it, nothing after it (\<open>checkValid\<close>).\<close>

definition parse_json :: "string \<Rightarrow> json option" where
  "parse_json s =
     (case parse_value (Suc (length s)) 0 (skip_ws s) of
        None \<Rightarrow> None
      | Some (v, r) \<Rightarrow> if skip_ws r = [] then Some v else None)"

text \<open>The members of a text that is an object, each with the bytes of its value.\<close>

definition parse_object :: "string \<Rightarrow> (string \<times> string \<times> json) list option" where
  "parse_object s =
     (case skip_ws s of
        [] \<Rightarrow> None
      | c # cs \<Rightarrow>
          if c = CHR ''{'' then
            (case skip_ws cs of
               [] \<Rightarrow> None
             | d # ds \<Rightarrow>
                 if d = CHR ''}'' then Some []
                 else
                   (case parse_members (length s) 1 (d # ds) of
                      None \<Rightarrow> None
                    | Some (ms, r) \<Rightarrow> Some ms))
          else None)"

subsection \<open>Rendering\<close>

text \<open>
  \<open>render v\<close> is the text \<open>json.Marshal\<close> writes for a value whose JSON image is
  \<open>v\<close>; it fails on a number that has no literal (NaN and the infinities).
\<close>

fun render :: "json \<Rightarrow> string option"
  and render_elements :: "json list \<Rightarrow> string option"
  and render_members :: "(string \<times> json) list \<Rightarrow> string option"
where
  "render JNull = Some ''null''"
| "render (JBool b) = Some (if b then ''true'' else ''false'')"
| "render (JNumber lit) = (if valid_number lit then Some lit else None)"
| "render (JString s) = Some (quote s)"
| "render (JArray vs) =
     (case vs of
        [] \<Rightarrow> Some ''[]''
      | _ # _ \<Rightarrow> (case render_elements vs of None \<Rightarrow> None | Some b \<Rightarrow> Some (CHR ''['' # b @ '']'')))"
| "render (JObject ms) =
     (case ms of
        [] \<Rightarrow> Some ''{}''
      | _ # _ \<Rightarrow> (case render_members ms of None \<Rightarrow> None | Some b \<Rightarrow> Some (CHR ''{'' # b @ ''}'')))"
| "render_elements [] = Some []"
| "render_elements (v # vs) =
     (case render v of
        None \<Rightarrow> None
      | Some a \<Rightarrow>
          (case vs of
             [] \<Rightarrow> Some a
           | _ # _ \<Rightarrow> (case render_elements vs of None \<Rightarrow> None | Some b \<Rightarrow> Some (a @ CHR '','' # b))))"
| "render_members [] = Some []"
| "render_members ((k, v) # ms) =
     (case render v of
        None \<Rightarrow> None
      | Some a \<Rightarrow>
          (case ms of
             [] \<Rightarrow> Some (quote k @ CHR '':'' # a)
           | _ # _ \<Rightarrow>
               (case render_members ms of
                  None \<Rightarrow> None
                | Some b \<Rightarrow> Some (quote k @ CHR '':'' # a @ CHR '','' # b))))"

text \<open>
  \<open>compact\<close> is what the encoder does to the bytes of a \<open>json.RawMessage\<close>: white
  space outside strings goes, and the HTML-sensitive characters are escaped.
\<close>

fun compact :: "bool \<Rightarrow> string \<Rightarrow> string" where
  "compact instr [] = []"
| "compact instr (c # cs) =
     (if c = CHR ''<'' \<or> c = CHR ''>'' \<or> c = CHR ''&'' then
        [CHR 0x5C, CHR ''u'', CHR ''0'', CHR ''0'', hexdigit (byte c div 16), hexdigit (byte c mod 16)]
          @ compact instr cs
      else if c = CHR 0xE2 \<and> (take 2 cs = [CHR 0x80, CHR 0xA8] \<or> take 2 cs = [CHR 0x80, CHR 0xA9]) then
        [CHR 0x5C, CHR ''u'', CHR ''2'', CHR ''0'', CHR ''2'', hexdigit (byte (cs ! 1) mod 16)]
          @ compact instr (drop 2 cs)
      else if instr then
        (if c = CHR 0x22 then c # compact False cs
         else if c = CHR 0x5C then
           (case cs of [] \<Rightarrow> [c] | e # cs' \<Rightarrow> c # e # compact True cs')
         else c # compact True cs)
      else if is_space c then compact False cs
      else if c = CHR 0x22 then c # compact True cs
      else c # compact False cs)"

section \<open>Go values behind \<open>interface{}\<close>\<close>

text \<open>
  The params, result and error data are \<open>interface{}\<close>. A value of that type is
  \<^item> \<open>Nil\<close>, the nil interface;
  \<^item> \<open>Val v\<close>, a value that is not a pointer, given by its JSON image \<open>v\<close> (what the
    generic decoding of \<open>v\<close> builds, or any caller's value that marshals to \<open>v\<close>);
  \<^item> \<open>Raw bs\<close>, a \<open>json.RawMessage\<close> holding the bytes \<open>bs\<close>;
  \<^item> \<open>Ptr t\<close>, a pointer to a caller's variable holding \<open>t\<close>: the target type of the spec;
  \<^item> \<open>Slice xs\<close>, the \<open>[]interface{}\<close> of a variadic call.

  What decoding into and encoding of a caller's variable do depends on its Go type,
  which the program never sees: both are parameters (\<open>codec\<close>).
\<close>

datatype 't iface =
    Nil
  | Val json
  | Raw string
  | Ptr 't
  | Slice "'t iface list"

record 't codec =
  decode_into :: "json \<Rightarrow> 't \<Rightarrow> 't option"
  encode_of :: "'t \<Rightarrow> json option"

datatype error =
    TransportError string
  | SyntaxError
  | UnmarshalTypeError
  | UnsupportedValueError
  | MalformedMessage
  | GenIDError string

text \<open>
  \<open>json.Unmarshal(data, &p)\<close> for \<open>p\<close> of type \<open>interface{}\<close>. The text is checked
  first. \<open>null\<close> sets \<open>p\<close> to nil; any other value is decoded into the variable \<open>p\<close>
  points to when there is one, and generically otherwise.
\<close>

definition store_iface :: "'t codec \<Rightarrow> json \<Rightarrow> 't iface \<Rightarrow> error + 't iface" where
  "store_iface cd v p =
     (case v of
        JNull \<Rightarrow> Inr Nil
      | _ \<Rightarrow>
          (case p of
             Ptr t \<Rightarrow>
               (case decode_into cd v t of
                  None \<Rightarrow> Inl UnmarshalTypeError
                | Some t' \<Rightarrow> Inr (Ptr t'))
           | _ \<Rightarrow> Inr (Val v)))"

definition Unmarshal_iface :: "'t codec \<Rightarrow> string \<Rightarrow> 't iface \<Rightarrow> error + 't iface" where
  "Unmarshal_iface cd data p =
     (case parse_json data of
        None \<Rightarrow> Inl SyntaxError
      | Some v \<Rightarrow> store_iface cd v p)"

fun Marshal_iface :: "'t codec \<Rightarrow> 't iface \<Rightarrow> string option"
  and Marshal_ifaces :: "'t codec \<Rightarrow> 't iface list \<Rightarrow> string option"
where
  "Marshal_iface cd Nil = Some ''null''"
| "Marshal_iface cd (Val v) = render v"
| "Marshal_iface cd (Raw bs) =
     (case bs of
        [] \<Rightarrow> Some ''null''
      | _ # _ \<Rightarrow> (case parse_json bs of None \<Rightarrow> None | Some v \<Rightarrow> Some (compact False bs)))"
| "Marshal_iface cd (Ptr t) = (case encode_of cd t of None \<Rightarrow> None | Some v \<Rightarrow> render v)"
| "Marshal_iface cd (Slice xs) =
     (case xs of
        [] \<Rightarrow> Some ''null''
      | _ # _ \<Rightarrow> (case Marshal_ifaces cd xs of None \<Rightarrow> None | Some b \<Rightarrow> Some (CHR ''['' # b @ '']'')))"
| "Marshal_ifaces cd [] = Some []"
| "Marshal_ifaces cd (x # xs) =
     (case Marshal_iface cd x of
        None \<Rightarrow> None
      | Some a \<Rightarrow>
          (case xs of
             [] \<Rightarrow> Some a
           | _ # _ \<Rightarrow> (case Marshal_ifaces cd xs of None \<Rightarrow> None | Some b \<Rightarrow> Some (a @ CHR '','' # b))))"

section \<open>Messages\<close>

text \<open>
  Modelled from the spec: the declarations of \<open>Request\<close>, \<open>Response\<close>, \<open>ResError\<close>,
  \<open>Notification\<close> and of the envelope \<open>message\<close> with its \<open>resError\<close> are not in
  \<open>client.go\<close>. Their fields are the ones \<open>ReadMsg\<close> reads and writes; the JSON names
  are \<open>id\<close>, \<open>method\<close>, \<open>params\<close>, \<open>result\<close>, \<open>error\<close> and, within the error,
  \<open>code\<close>, \<open>message\<close>, \<open>data\<close>, in this order. In the envelope \<open>params\<close>,
  \<open>result\<close> and the error's \<open>data\<close> are raw JSON (\<open>json.RawMessage\<close>), the empty
  byte sequence standing for nil, and \<open>error\<close> is a pointer.
\<close>

record 't Request =
  req_ID :: string
  req_Method :: string
  req_Params :: "'t iface"

record 't ResError =
  err_Code :: int
  err_Message :: string
  err_Data :: "'t iface"

record 't Response =
  res_ID :: string
  res_Result :: "'t iface"
  res_Error :: "'t ResError option"

record 't Notification =
  not_Method :: string
  not_Params :: "'t iface"

record resError =
  rerr_Code :: int
  rerr_Message :: string
  rerr_Data :: string

record message =
  msg_ID :: string
  msg_Method :: string
  msg_Params :: string
  msg_Result :: string
  msg_Error :: "resError option"

subsection \<open>Decoding the envelope\<close>

text \<open>
  A key selects the field whose name it equals when letter case is ignored; the decoder
  folds case the Unicode way, under which the long s (U+017F) is an \<open>s\<close> and the Kelvin
  sign (U+212A) a \<open>k\<close>.
\<close>

fun fold_key :: "string \<Rightarrow> string" where
  "fold_key [] = []"
| "fold_key (c # cs) =
     (if 97 \<le> byte c \<and> byte c \<le> 122 then char_of (byte c - 32) # fold_key cs
      else if c = CHR 0xC5 \<and> take 1 cs = [CHR 0xBF] then CHR ''S'' # fold_key (drop 1 cs)
      else if c = CHR 0xE2 \<and> take 2 cs = [CHR 0x84, CHR 0xAA] then CHR ''K'' # fold_key (drop 2 cs)
      else c # fold_key cs)"

definition int_of_digits :: "string \<Rightarrow> int" where
  "int_of_digits ds = foldl (\<lambda>a c. 10 * a + (of_char c - 48)) 0 ds"

text \<open>\<open>strconv.ParseInt\<close> on a number literal, for a field of type \<open>int\<close> (64 bits).\<close>

definition int_of_literal :: "string \<Rightarrow> int option" where
  "int_of_literal lit =
     (case lit of
        [] \<Rightarrow> None
      | c # cs \<Rightarrow>
          if c = CHR ''-'' then
            (if list_all is_digit cs \<and> int_of_digits cs \<le> 2 ^ 63
             then Some (- int_of_digits cs) else None)
          else
            (if list_all is_digit lit \<and> int_of_digits lit < 2 ^ 63
             then Some (int_of_digits lit) else None))"

definition set_string :: "json \<Rightarrow> string \<Rightarrow> error + string" where
  "set_string v old =
     (case v of JString s \<Rightarrow> Inr s | JNull \<Rightarrow> Inr old | _ \<Rightarrow> Inl UnmarshalTypeError)"

definition set_int :: "json \<Rightarrow> int \<Rightarrow> error + int" where
  "set_int v old =
     (case v of
        JNumber lit \<Rightarrow> (case int_of_literal lit of None \<Rightarrow> Inl UnmarshalTypeError | Some n \<Rightarrow> Inr n)
      | JNull \<Rightarrow> Inr old
      | _ \<Rightarrow> Inl UnmarshalTypeError)"

fun bind_resError :: "(string \<times> string \<times> json) list \<Rightarrow> resError \<Rightarrow> error + resError" where
  "bind_resError [] e = Inr e"
| "bind_resError ((k, raw, v) # ms) e =
     (if fold_key k = ''CODE'' then
        (case set_int v (rerr_Code e) of
           Inl err \<Rightarrow> Inl err
         | Inr n \<Rightarrow> bind_resError ms (e\<lparr>rerr_Code := n\<rparr>))
      else if fold_key k = ''MESSAGE'' then
        (case set_string v (rerr_Message e) of
           Inl err \<Rightarrow> Inl err
         | Inr s \<Rightarrow> bind_resError ms (e\<lparr>rerr_Message := s\<rparr>))
      else if fold_key k = ''DATA'' then bind_resError ms (e\<lparr>rerr_Data := raw\<rparr>)
      else bind_resError ms e)"

definition set_resError :: "string \<Rightarrow> json \<Rightarrow> resError option \<Rightarrow> error + resError option" where
  "set_resError raw v old =
     (case v of
        JNull \<Rightarrow> Inr None
      | JObject _ \<Rightarrow>
          (case parse_object raw of
             None \<Rightarrow> Inl SyntaxError
           | Some ms \<Rightarrow>
               (case bind_resError ms
                       (case old of
                          None \<Rightarrow> \<lparr>rerr_Code = 0, rerr_Message = [], rerr_Data = []\<rparr>
                        | Some e \<Rightarrow> e) of
                  Inl err \<Rightarrow> Inl err
                | Inr e \<Rightarrow> Inr (Some e)))
      | _ \<Rightarrow> Inl UnmarshalTypeError)"

fun bind_message :: "(string \<times> string \<times> json) list \<Rightarrow> message \<Rightarrow> error + message" where
  "bind_message [] m = Inr m"
| "bind_message ((k, raw, v) # ms) m =
     (if fold_key k = ''ID'' then
        (case set_string v (msg_ID m) of
           Inl err \<Rightarrow> Inl err
         | Inr s \<Rightarrow> bind_message ms (m\<lparr>msg_ID := s\<rparr>))
      else if fold_key k = ''METHOD'' then
        (case set_string v (msg_Method m) of
           Inl err \<Rightarrow> Inl err
         | Inr s \<Rightarrow> bind_message ms (m\<lparr>msg_Method := s\<rparr>))
      else if fold_key k = ''PARAMS'' then bind_message ms (m\<lparr>msg_Params := raw\<rparr>)
      else if fold_key k = ''RESULT'' then bind_message ms (m\<lparr>msg_Result := raw\<rparr>)
      else if fold_key k = ''ERROR'' then
        (case set_resError raw v (msg_Error m) of
           Inl err \<Rightarrow> Inl err
         | Inr e \<Rightarrow> bind_message ms (m\<lparr>msg_Error := e\<rparr>))
      else bind_message ms m)"

definition message0 :: message where
  "message0 = \<lparr>msg_ID = [], msg_Method = [], msg_Params = [], msg_Result = [], msg_Error = None\<rparr>"

text \<open>
  \<open>json.Unmarshal(data, &msg)\<close> with \<open>msg := message{}\<close>: a text that is not JSON is a
  syntax error, \<open>null\<close> leaves the envelope as it is, an object fills the fields its
  keys name, and any other value, or a field of the wrong type, is a type error.
\<close>

definition Unmarshal_message :: "string \<Rightarrow> error + message" where
  "Unmarshal_message data =
     (case parse_json data of
        None \<Rightarrow> Inl SyntaxError
      | Some v \<Rightarrow>
          (case v of
             JNull \<Rightarrow> Inr message0
           | JObject _ \<Rightarrow>
               (case parse_object data of
                  None \<Rightarrow> Inl SyntaxError
                | Some ms \<Rightarrow> bind_message ms message0)
           | _ \<Rightarrow> Inl UnmarshalTypeError))"

subsection \<open>Encoding a message\<close>

text \<open>
  Whether a field's tag says \<open>omitempty\<close> is part of the declarations that are not in
  \<open>client.go\<close>: it is a parameter, \<open>tags\<close>, true for the fields that are left out when
  empty.
\<close>

datatype struct_field =
    Request_ID | Request_Method | Request_Params
  | Notification_Method | Notification_Params
  | Response_ID | Response_Result | Response_Error
  | ResError_Code | ResError_Message | ResError_Data

type_synonym tags = "struct_field \<Rightarrow> bool"

datatype 't msg =
    MRequest "'t Request"
  | MResponse "'t Response"
  | MNotification "'t Notification"
  | MValue "'t iface"

fun is_nil :: "'t iface \<Rightarrow> bool" where
  "is_nil Nil = True"
| "is_nil _ = False"

function dec_nat :: "nat \<Rightarrow> string" where
  "dec_nat n =
     (if n < 10 then [''0123456789'' ! n]
      else dec_nat (n div 10) @ [''0123456789'' ! (n mod 10)])"
  by pat_completeness auto
termination
  by (relation "measure (\<lambda>n. n)") auto

definition dec_int :: "int \<Rightarrow> string" where
  "dec_int i = (if i < 0 then CHR ''-'' # dec_nat (nat (- i)) else dec_nat (nat i))"

definition entry :: "bool \<Rightarrow> string \<Rightarrow> string \<Rightarrow> string list" where
  "entry omitted k v = (if omitted then [] else [quote k @ CHR '':'' # v])"

fun commas :: "string list \<Rightarrow> string" where
  "commas [] = []"
| "commas [x] = x"
| "commas (x # y # ys) = x @ CHR '','' # commas (y # ys)"

definition object_text :: "string list \<Rightarrow> string" where
  "object_text ms = CHR ''{'' # commas ms @ ''}''"

definition Marshal_ResError :: "'t codec \<Rightarrow> tags \<Rightarrow> 't ResError \<Rightarrow> string option" where
  "Marshal_ResError cd tg e =
     (case Marshal_iface cd (err_Data e) of
        None \<Rightarrow> None
      | Some d \<Rightarrow>
          Some (object_text
            (entry (tg ResError_Code \<and> err_Code e = 0) ''code'' (dec_int (err_Code e)) @
             entry (tg ResError_Message \<and> err_Message e = []) ''message'' (quote (err_Message e)) @
             entry (tg ResError_Data \<and> is_nil (err_Data e)) ''data'' d)))"

definition Marshal_Request :: "'t codec \<Rightarrow> tags \<Rightarrow> 't Request \<Rightarrow> string option" where
  "Marshal_Request cd tg r =
     (case Marshal_iface cd (req_Params r) of
        None \<Rightarrow> None
      | Some p \<Rightarrow>
          Some (object_text
            (entry (tg Request_ID \<and> req_ID r = []) ''id'' (quote (req_ID r)) @
             entry (tg Request_Method \<and> req_Method r = []) ''method'' (quote (req_Method r)) @
             entry (tg Request_Params \<and> is_nil (req_Params r)) ''params'' p)))"

definition Marshal_Notification :: "'t codec \<Rightarrow> tags \<Rightarrow> 't Notification \<Rightarrow> string option" where
  "Marshal_Notification cd tg n =
     (case Marshal_iface cd (not_Params n) of
        None \<Rightarrow> None
      | Some p \<Rightarrow>
          Some (object_text
            (entry (tg Notification_Method \<and> not_Method n = []) ''method'' (quote (not_Method n)) @
             entry (tg Notification_Params \<and> is_nil (not_Params n)) ''params'' p)))"

definition Marshal_Response :: "'t codec \<Rightarrow> tags \<Rightarrow> 't Response \<Rightarrow> string option" where
  "Marshal_Response cd tg r =
     (case Marshal_iface cd (res_Result r) of
        None \<Rightarrow> None
      | Some res \<Rightarrow>
          (case res_Error r of
             None \<Rightarrow>
               Some (object_text
                 (entry (tg Response_ID \<and> res_ID r = []) ''id'' (quote (res_ID r)) @
                  entry (tg Response_Result \<and> is_nil (res_Result r)) ''result'' res @
                  entry (tg Response_Error) ''error'' ''null''))
           | Some e \<Rightarrow>
               (case Marshal_ResError cd tg e of
                  None \<Rightarrow> None
                | Some er \<Rightarrow>
                    Some (object_text
                      (entry (tg Response_ID \<and> res_ID r = []) ''id'' (quote (res_ID r)) @
                       entry (tg Response_Result \<and> is_nil (res_Result r)) ''result'' res @
                       entry False ''error'' er)))))"

text \<open>\<open>json.Marshal(msg)\<close> for the messages the client writes.\<close>

definition Marshal :: "'t codec \<Rightarrow> tags \<Rightarrow> 't msg \<Rightarrow> error + string" where
  "Marshal cd tg m =
     (case (case m of
              MRequest r \<Rightarrow> Marshal_Request cd tg r
            | MResponse r \<Rightarrow> Marshal_Response cd tg r
            | MNotification n \<Rightarrow> Marshal_Notification cd tg n
            | MValue x \<Rightarrow> Marshal_iface cd x) of
        None \<Rightarrow> Inl UnsupportedValueError
      | Some data \<Rightarrow> Inr data)"

section \<open>The connection and the identifier generator\<close>

text \<open>
  \<open>neptulon.Conn\<close> and \<open>neptulon.GenID\<close> belong to another package. The connection is
  modelled by what the program can observe: \<open>pending\<close> holds what the coming calls of
  \<open>Read\<close> will return (a frame, or an error such as a timeout; a connection with nothing
  left reports that it is closed), \<open>wscript\<close> the outcomes of the coming calls of
  \<open>Write\<close> (\<open>None\<close> for success, which is also what happens when the script is used
  up), \<open>written\<close> the frames written so far, and \<open>reads\<close> and \<open>writes\<close> count the calls.
  The generator is the list of its coming answers.
\<close>

record conn =
  pending :: "(error + string) list"
  reads :: nat
  wscript :: "error option list"
  written :: "string list"
  writes :: nat

definition conn_Read :: "conn \<Rightarrow> (error + string) \<times> conn" where
  "conn_Read c =
     (case pending c of
        [] \<Rightarrow> (Inl (TransportError ''closed''), c\<lparr>reads := Suc (reads c)\<rparr>)
      | r # rs \<Rightarrow> (r, c\<lparr>pending := rs, reads := Suc (reads c)\<rparr>))"

definition conn_Write :: "conn \<Rightarrow> string \<Rightarrow> error option \<times> conn" where
  "conn_Write c data =
     (case wscript c of
        [] \<Rightarrow> (None, c\<lparr>written := written c @ [data], writes := Suc (writes c)\<rparr>)
      | None # ws \<Rightarrow>
          (None, c\<lparr>wscript := ws, written := written c @ [data], writes := Suc (writes c)\<rparr>)
      | Some err # ws \<Rightarrow> (Some err, c\<lparr>wscript := ws, writes := Suc (writes c)\<rparr>))"

type_synonym idgen = "(error + string) list"

definition GenID :: "idgen \<Rightarrow> (error + string) \<times> idgen" where
  "GenID g =
     (case g of
        [] \<Rightarrow> (Inl (GenIDError ''exhausted''), [])
      | r # rs \<Rightarrow> (r, rs))"

section \<open>The client\<close>

text \<open>
  \<open>ReadMsg\<close> returns the four named results \<open>(req, res, not, err)\<close>, a nil pointer or a
  nil error being \<open>None\<close>, and the connection after the call.
\<close>

type_synonym 't results =
  "'t Request option \<times> 't Response option \<times> 't Notification option \<times> error option"

definition ReadMsg :: "'t codec \<Rightarrow> conn \<Rightarrow> 't iface \<Rightarrow> 't iface \<Rightarrow> 't results \<times> conn" where
  "ReadMsg cd c resultData paramsData =
     (case conn_Read c of
        (Inl err, c') \<Rightarrow> ((None, None, None, Some err), c')
      | (Inr data, c') \<Rightarrow>
          (case Unmarshal_message data of
             Inl err \<Rightarrow> ((None, None, None, Some err), c')
           | Inr msg \<Rightarrow>
               if msg_ID msg \<noteq> [] then
                 if msg_Method msg \<noteq> [] then
                   (case Unmarshal_iface cd (msg_Params msg) paramsData of
                      Inl err \<Rightarrow> ((None, None, None, Some err), c')
                    | Inr p \<Rightarrow>
                        ((Some \<lparr>req_ID = msg_ID msg, req_Method = msg_Method msg, req_Params = p\<rparr>,
                          None, None, None), c'))
                 else
                   (case (if msg_Result msg \<noteq> []
                          then Unmarshal_iface cd (msg_Result msg) resultData
                          else Inr resultData) of
                      Inl err \<Rightarrow> ((None, None, None, Some err), c')
                    | Inr r \<Rightarrow>
                        (case msg_Error msg of
                           None \<Rightarrow>
                             ((None,
                               Some \<lparr>res_ID = msg_ID msg, res_Result = r, res_Error = None\<rparr>,
                               None, None), c')
                         | Some e \<Rightarrow>
                             (case Unmarshal_iface cd (rerr_Data e) Nil of
                                Inl err \<Rightarrow>
                                  ((None,
                                    Some \<lparr>res_ID = msg_ID msg, res_Result = r,
                                          res_Error = Some \<lparr>err_Code = rerr_Code e,
                                            err_Message = rerr_Message e, err_Data = Nil\<rparr>\<rparr>,
                                    None, Some err), c')
                              | Inr d \<Rightarrow>
                                  ((None,
                                    Some \<lparr>res_ID = msg_ID msg, res_Result = r,
                                          res_Error = Some \<lparr>err_Code = rerr_Code e,
                                            err_Message = rerr_Message e, err_Data = d\<rparr>\<rparr>,
                                    None, None), c'))))
               else
                 ((None, None,
                   (if msg_Method msg \<noteq> []
                    then Some \<lparr>not_Method = msg_Method msg, not_Params = Raw (msg_Params msg)\<rparr>
                    else None),
                   Some MalformedMessage), c')))"

definition WriteMsg :: "'t codec \<Rightarrow> tags \<Rightarrow> conn \<Rightarrow> 't msg \<Rightarrow> error option \<times> conn" where
  "WriteMsg cd tg c m =
     (case Marshal cd tg m of
        Inl err \<Rightarrow> (Some err, c)
      | Inr data \<Rightarrow> conn_Write c data)"

definition WriteRequest ::
  "'t codec \<Rightarrow> tags \<Rightarrow> idgen \<Rightarrow> conn \<Rightarrow> string \<Rightarrow> 't iface \<Rightarrow> (string \<times> error option) \<times> idgen \<times> conn" where
  "WriteRequest cd tg g c method params =
     (case GenID g of
        (Inl err, g') \<Rightarrow> (([], Some err), g', c)
      | (Inr ident, g') \<Rightarrow>
          (case WriteMsg cd tg c (MRequest \<lparr>req_ID = ident, req_Method = method, req_Params = params\<rparr>) of
             (err, c') \<Rightarrow> ((ident, err), g', c')))"

definition WriteRequestArr ::
  "'t codec \<Rightarrow> tags \<Rightarrow> idgen \<Rightarrow> conn \<Rightarrow> string \<Rightarrow> 't iface list \<Rightarrow> (string \<times> error option) \<times> idgen \<times> conn" where
  "WriteRequestArr cd tg g c method params = WriteRequest cd tg g c method (Slice params)"

definition WriteNotification :: "'t codec \<Rightarrow> tags \<Rightarrow> conn \<Rightarrow> string \<Rightarrow> 't iface \<Rightarrow> error option \<times> conn" where
  "WriteNotification cd tg c method params =
     WriteMsg cd tg c (MNotification \<lparr>not_Method = method, not_Params = params\<rparr>)"

definition WriteNotificationArr ::
  "'t codec \<Rightarrow> tags \<Rightarrow> conn \<Rightarrow> string \<Rightarrow> 't iface list \<Rightarrow> error option \<times> conn" where
  "WriteNotificationArr cd tg c method params = WriteNotification cd tg c method (Slice params)"

definition WriteResponse ::
  "'t codec \<Rightarrow> tags \<Rightarrow> conn \<Rightarrow> string \<Rightarrow> 't iface \<Rightarrow> 't ResError option \<Rightarrow> error option \<times> conn" where
  "WriteResponse cd tg c ident result err =
     WriteMsg cd tg c (MResponse \<lparr>res_ID = ident, res_Result = result, res_Error = err\<rparr>)"

section \<open>The JSON value of params\<close>




section \<open>Where a rendered value starts and ends\<close>

text \<open>
  In a rendered text a value is followed by a comma, a closing bracket or the end of the
  text, and starts with a character that is neither white space nor punctuation.
\<close>

definition delimited :: "string \<Rightarrow> bool" where
  "delimited rest =
     (case rest of [] \<Rightarrow> True | c # _ \<Rightarrow> c = CHR '','' \<or> c = CHR '']'' \<or> c = CHR ''}'')"

definition value_start :: "string \<Rightarrow> bool" where
  "value_start t =
     (case t of
        [] \<Rightarrow> False
      | c # _ \<Rightarrow> \<not> is_space c \<and> c \<noteq> CHR '']'' \<and> c \<noteq> CHR ''}'' \<and> c \<noteq> CHR '','' \<and> c \<noteq> CHR '':'')"

section \<open>Sample callers\<close>

text \<open>
  Concrete inputs for the examples below: a fresh connection on which the given frames
  arrive, a caller's variable of type \<open>int\<close> as decoding target, and the two uniform
  choices of tags.
\<close>

definition conn_of :: "string list \<Rightarrow> conn" where
  "conn_of frames = \<lparr>pending = map Inr frames, reads = 0, wscript = [], written = [], writes = 0\<rparr>"

definition int_var :: "int codec" where
  "int_var =
     \<lparr>decode_into = (\<lambda>v t. case v of JNumber lit \<Rightarrow> int_of_literal lit | _ \<Rightarrow> None),
      encode_of = (\<lambda>t. Some (JNumber (dec_int t)))\<rparr>"

definition plain_tags :: tags where
  "plain_tags = (\<lambda>f. False)"


section \<open>The fuel of the parser\<close>

text \<open>
  More fuel never changes a result, and a value is found with no more fuel than it has
  characters.
\<close>

lemma parse_fuel_Suc:
  "parse_value n dp s = Some x \<Longrightarrow> parse_value (Suc n) dp s = Some x"
  "parse_elements n dp s = Some y \<Longrightarrow> parse_elements (Suc n) dp s = Some y"
  "parse_members n dp s = Some z \<Longrightarrow> parse_members (Suc n) dp s = Some z"
proof (induction n arbitrary: dp s x y z)
  case 0
  {
    case 1 then show ?case by simp
  next
    case 2 then show ?case by simp
  next
    case 3 then show ?case by simp
  }
next
  case (Suc n)
  note IH = Suc.IH
  {
    case 1
    note h = "1"
    then obtain c cs where s: "s = c # cs" by (cases s) auto
    show ?case
    proof (cases "c = CHR ''{''")
      case True
      with h s have dp: "dp < maxNestingDepth" by (auto split: if_splits)
      from h s True dp obtain d ds where sk: "skip_ws cs = d # ds" by (auto split: list.splits)
      show ?thesis
      proof (cases "d = CHR ''}''")
        case True
        with h s \<open>c = CHR ''{''\<close> dp sk show ?thesis by simp
      next
        case False
        with h s \<open>c = CHR ''{''\<close> dp sk obtain ms r where
          pm: "parse_members n (Suc dp) (d # ds) = Some (ms, r)"
          by (auto split: option.splits)
        from IH(3) [OF pm] h s \<open>c = CHR ''{''\<close> dp sk False pm show ?thesis by simp
      qed
    next
      case nobj: False
      show ?thesis
      proof (cases "c = CHR ''[''")
        case True
        with h s nobj have dp: "dp < maxNestingDepth" by (auto split: if_splits)
        from h s True nobj dp obtain d ds where sk: "skip_ws cs = d # ds" by (auto split: list.splits)
        show ?thesis
        proof (cases "d = CHR '']''")
          case True
          with h s nobj \<open>c = CHR ''[''\<close> dp sk show ?thesis by simp
        next
          case False
          with h s nobj \<open>c = CHR ''[''\<close> dp sk obtain vs r where
            pe: "parse_elements n (Suc dp) (d # ds) = Some (vs, r)"
            by (auto split: option.splits)
          from IH(2) [OF pe] h s nobj \<open>c = CHR ''[''\<close> dp sk False pe show ?thesis by simp
        qed
      next
        case False
        with h s nobj show ?thesis by simp
      qed
    qed
  next
    case 2
    note h = "2"
    then obtain v r where pv: "parse_value n dp s = Some (v, r)" by (auto split: option.splits)
    from h pv obtain d ds where sk: "skip_ws r = d # ds" by (auto split: list.splits)
    note pv' = IH(1) [OF pv]
    show ?case
    proof (cases "d = CHR '',''")
      case True
      with h pv sk obtain vs r' where pe: "parse_elements n dp (skip_ws ds) = Some (vs, r')"
        by (auto split: option.splits)
      from IH(2) [OF pe] h pv pv' sk True pe show ?thesis
        by (simp del: parse_value.simps)
    next
      case False
      with h pv pv' sk show ?thesis by (simp del: parse_value.simps split: if_splits)
    qed
  next
    case 3
    note h = "3"
    then obtain k s' where mk: "member_key s = Some (k, s')" by (auto split: option.splits)
    from h mk obtain v r where pv: "parse_value n dp s' = Some (v, r)" by (auto split: option.splits)
    from h mk pv obtain d ds where sk: "skip_ws r = d # ds" by (auto split: list.splits)
    note pv' = IH(1) [OF pv]
    show ?case
    proof (cases "d = CHR '',''")
      case True
      with h mk pv sk obtain ms r' where pm: "parse_members n dp (skip_ws ds) = Some (ms, r')"
        by (auto split: option.splits)
      from IH(3) [OF pm] h mk pv pv' sk True pm show ?thesis
        by (simp del: parse_value.simps)
    next
      case False
      with h mk pv pv' sk show ?thesis by (simp del: parse_value.simps split: if_splits)
    qed
  }
qed

lemma parse_fuel_mono:
  assumes "n \<le> m"
  shows "parse_value n dp s = Some x \<Longrightarrow> parse_value m dp s = Some x"
    and "parse_elements n dp s = Some y \<Longrightarrow> parse_elements m dp s = Some y"
    and "parse_members n dp s = Some z \<Longrightarrow> parse_members m dp s = Some z"
  using assms by (induction m) (auto simp add: le_Suc_eq simp del: parse_value.simps
      parse_elements.simps parse_members.simps dest: parse_fuel_Suc)

lemma skip_ws_length: "length (skip_ws s) \<le> length s"
  by (simp add: skip_ws_def length_dropWhile_le)

lemma emit_SomeD: "emit out x = Some (str, r) \<Longrightarrow> \<exists>str'. x = Some (str', r)"
  by (auto simp add: emit_def split: option.splits)

lemma unquote_shorter: "unquote s = Some (str, r) \<Longrightarrow> length r < length s"
proof (induction s arbitrary: str r rule: length_induct)
  case (1 s)
  note IH = "1.IH" [rule_format]
  have step: "length r < length s" if "emit out (unquote t) = Some (str, r)" "length t < length s"
    for out t
  proof -
    from that(1) obtain str' where "unquote t = Some (str', r)" by (auto dest: emit_SomeD)
    with IH [OF that(2)] have "length r < length t" by blast
    with that(2) show ?thesis by simp
  qed
  from "1.prems" obtain c cs where s: "s = c # cs" by (cases s) auto
  show ?case
  proof (cases "c = CHR 0x22")
    case True
    with "1.prems" s show ?thesis by simp
  next
    case nq: False
    show ?thesis
    proof (cases "c = CHR 0x5C")
      case True
      with "1.prems" s nq obtain e cs' where cs: "cs = e # cs'" by (cases cs) auto
      show ?thesis
      proof (cases "e = CHR ''u''")
        case True
        with "1.prems" s nq \<open>c = CHR 0x5C\<close> cs obtain t out where
          "emit out (unquote t) = Some (str, r)" "t = drop 4 cs' \<or> t = drop 10 cs'"
          by (auto split: option.splits if_splits)
        moreover from this have "length t < length s" using s cs by auto
        ultimately show ?thesis using step by blast
      next
        case False
        with "1.prems" s nq \<open>c = CHR 0x5C\<close> cs obtain out where
          "emit out (unquote cs') = Some (str, r)"
          by (auto split: option.splits if_splits)
        moreover have "length cs' < length s" using s cs by simp
        ultimately show ?thesis using step by blast
      qed
    next
      case False
      with "1.prems" s nq obtain t out where
        "emit out (unquote t) = Some (str, r)" "t = cs \<or> (\<exists>k. t = drop k cs)"
        by (auto split: option.splits if_splits)
      moreover from this have "length t < length s" using s by auto
      ultimately show ?thesis using step by blast
    qed
  qed
qed

lemma scan_digits_split: "scan_digits s = Some (a, r) \<Longrightarrow> s = a @ r \<and> a \<noteq> []"
  by (auto simp add: scan_digits_def split: if_splits)

lemma scan_int_split: "scan_int s = Some (a, r) \<Longrightarrow> s = a @ r \<and> a \<noteq> []"
  by (cases s) (auto simp add: scan_int_def split: if_splits dest: scan_digits_split)

lemma scan_frac_split: "scan_frac s = Some (a, r) \<Longrightarrow> s = a @ r"
  by (cases s) (auto simp add: scan_frac_def split: if_splits option.splits dest: scan_digits_split)

lemma scan_exp_split: "scan_exp s = Some (a, r) \<Longrightarrow> s = a @ r"
  by (cases s) (auto simp add: scan_exp_def split: if_splits option.splits list.splits
      dest: scan_digits_split)

lemma scan_number_shorter:
  assumes "scan_number s = Some (lit, r)"
  shows "length r < length s"
proof -
  define s0 where "s0 = (case s of [] \<Rightarrow> s | c # cs \<Rightarrow> if c = CHR ''-'' then cs else s)"
  have l0: "length s0 \<le> length s" by (cases s) (auto simp add: s0_def)
  from assms obtain i s1 f s2 e where
    "scan_int s0 = Some (i, s1)" "scan_frac s1 = Some (f, s2)" "scan_exp s2 = Some (e, r)"
    by (cases s) (auto simp add: scan_number_def s0_def split: option.splits if_splits)
  then have "s0 = i @ f @ e @ r" "i \<noteq> []"
    by (auto dest!: scan_int_split scan_frac_split scan_exp_split)
  then have "length r < length s0" by (cases i) auto
  with l0 show ?thesis by simp
qed

lemma parse_scalar_shorter:
  assumes "parse_scalar s = Some (v, r)"
  shows "length r < length s"
proof -
  from assms obtain c cs where s: "s = c # cs" by (cases s) (auto simp add: parse_scalar_def)
  consider (str) "c = CHR 0x22" | (t) "c = CHR ''t''" | (f) "c = CHR ''f''" | (n) "c = CHR ''n''"
    | (num) "c \<noteq> CHR 0x22" "c \<noteq> CHR ''t''" "c \<noteq> CHR ''f''" "c \<noteq> CHR ''n''"
    by blast
  then show ?thesis
  proof cases
    case str
    with assms s obtain x where "unquote cs = Some (x, r)"
      by (auto simp add: parse_scalar_def split: option.splits)
    then have "length r < length cs" by (rule unquote_shorter)
    with s show ?thesis by simp
  next
    case num
    with assms s obtain lit where "scan_number s = Some (lit, r)"
      by (auto simp add: parse_scalar_def split: option.splits)
    then show ?thesis by (rule scan_number_shorter)
  qed (use assms s in \<open>auto simp add: parse_scalar_def split: if_splits\<close>)
qed

lemma member_key_shorter:
  assumes "member_key s = Some (k, s')"
  shows "length s' < length s"
proof -
  from assms obtain s1 r1 col r2 where
    f: "s = CHR 0x22 # s1" "unquote s1 = Some (k, r1)" "skip_ws r1 = col # r2" "s' = skip_ws r2"
    by (cases s) (auto simp add: member_key_def split: if_splits option.splits list.splits)
  from f(2) have "length r1 < length s1" by (rule unquote_shorter)
  moreover have "length (col # r2) \<le> length r1" using skip_ws_length [of r1] f(3) by simp
  moreover have "length s' \<le> length r2" using skip_ws_length [of r2] f(4) by simp
  ultimately show ?thesis using f(1) by simp
qed

lemma parse_fuel_bound:
  "parse_value n dp s = Some (v, r) \<Longrightarrow>
     length r < length s \<and> parse_value (length s - length r) dp s = Some (v, r)"
  "parse_elements n dp s = Some (vs, r) \<Longrightarrow>
     length r < length s \<and> parse_elements (length s - length r) dp s = Some (vs, r)"
  "parse_members n dp s = Some (ms, r) \<Longrightarrow>
     length r < length s \<and> parse_members (length s - length r) dp s = Some (ms, r)"
proof (induction n arbitrary: dp s v vs ms r)
  case 0
  {
    case 1 then show ?case by simp
  next
    case 2 then show ?case by simp
  next
    case 3 then show ?case by simp
  }
next
  case (Suc n)
  note IH = Suc.IH
  {
    case 1
    note h = "1"
    then obtain c cs where s: "s = c # cs" by (cases s) auto
    show ?case
    proof (cases "c = CHR ''{''")
      case True
      with h s have dp: "dp < maxNestingDepth" by (auto split: if_splits)
      from h s True dp obtain d ds where sk: "skip_ws cs = d # ds" by (auto split: list.splits)
      have l: "length (d # ds) \<le> length cs" using skip_ws_length [of cs] sk by simp
      show ?thesis
      proof (cases "d = CHR ''}''")
        case True
        with h s \<open>c = CHR ''{''\<close> dp sk have x: "v = JObject []" "r = ds" by auto
        with l s have lr: "length r < length s" by simp
        then obtain k where k: "length s - length r = Suc k" by (cases "length s - length r") auto
        from s \<open>c = CHR ''{''\<close> dp sk True x show ?thesis unfolding k using lr by simp
      next
        case False
        with h s \<open>c = CHR ''{''\<close> dp sk obtain ms' where
          pm: "parse_members n (Suc dp) (d # ds) = Some (ms', r)"
          and v: "v = JObject (map (\<lambda>(k, raw, v). (k, v)) ms')"
          by (auto split: option.splits)
        from IH(3) [OF pm] have b: "length r < length (d # ds)"
          "parse_members (length (d # ds) - length r) (Suc dp) (d # ds) = Some (ms', r)" by auto
        from b(1) l s have lr: "length r < length s" by simp
        have k: "length s - length r = Suc (length cs - length r)" using b(1) l s by simp
        have "parse_members (length cs - length r) (Suc dp) (d # ds) = Some (ms', r)"
          using b(2) l by (intro parse_fuel_mono(3) [OF _ b(2)]) simp
        with s \<open>c = CHR ''{''\<close> dp sk False v lr show ?thesis unfolding k by simp
      qed
    next
      case nobj: False
      show ?thesis
      proof (cases "c = CHR ''[''")
        case True
        with h s nobj have dp: "dp < maxNestingDepth" by (auto split: if_splits)
        from h s True nobj dp obtain d ds where sk: "skip_ws cs = d # ds" by (auto split: list.splits)
        have l: "length (d # ds) \<le> length cs" using skip_ws_length [of cs] sk by simp
        show ?thesis
        proof (cases "d = CHR '']''")
          case True
          with h s nobj \<open>c = CHR ''[''\<close> dp sk have x: "v = JArray []" "r = ds" by auto
          with l s have lr: "length r < length s" by simp
          then obtain k where k: "length s - length r = Suc k" by (cases "length s - length r") auto
          from s nobj \<open>c = CHR ''[''\<close> dp sk True x show ?thesis unfolding k using lr by simp
        next
          case False
          with h s nobj \<open>c = CHR ''[''\<close> dp sk obtain vs' where
            pe: "parse_elements n (Suc dp) (d # ds) = Some (vs', r)" and v: "v = JArray vs'"
            by (auto split: option.splits)
          from IH(2) [OF pe] have b: "length r < length (d # ds)"
            "parse_elements (length (d # ds) - length r) (Suc dp) (d # ds) = Some (vs', r)" by auto
          from b(1) l s have lr: "length r < length s" by simp
          have k: "length s - length r = Suc (length cs - length r)" using b(1) l s by simp
          have "parse_elements (length cs - length r) (Suc dp) (d # ds) = Some (vs', r)"
            using b(2) l by (intro parse_fuel_mono(2) [OF _ b(2)]) simp
          with s nobj \<open>c = CHR ''[''\<close> dp sk False v lr show ?thesis unfolding k by simp
        qed
      next
        case False
        with h s nobj have ps: "parse_scalar s = Some (v, r)" by simp
        then have lr: "length r < length s" by (rule parse_scalar_shorter)
        then obtain k where k: "length s - length r = Suc k" by (cases "length s - length r") auto
        from s nobj False ps lr show ?thesis unfolding k by simp
      qed
    qed
  next
    case 2
    note h = "2"
    then obtain w r1 where pv: "parse_value n dp s = Some (w, r1)" by (auto split: option.splits)
    from h pv obtain d ds where sk: "skip_ws r1 = d # ds" by (auto split: list.splits)
    from IH(1) [OF pv] have b: "length r1 < length s"
      "parse_value (length s - length r1) dp s = Some (w, r1)" by auto
    have l: "length (d # ds) \<le> length r1" using skip_ws_length [of r1] sk by simp
    show ?case
    proof (cases "d = CHR '',''")
      case True
      with h pv sk obtain ws where pe: "parse_elements n dp (skip_ws ds) = Some (ws, r)"
        and vs: "vs = w # ws"
        by (auto split: option.splits)
      from IH(2) [OF pe] have c: "length r < length (skip_ws ds)"
        "parse_elements (length (skip_ws ds) - length r) dp (skip_ws ds) = Some (ws, r)" by auto
      have l2: "length (skip_ws ds) \<le> length ds" by (rule skip_ws_length)
      from b(1) c(1) l l2 have lr: "length r < length s" by simp
      define k where "k = length s - length r - 1"
      have k: "length s - length r = Suc k" using lr by (simp add: k_def)
      have "parse_value k dp s = Some (w, r1)"
        using b(1) c(1) l l2 by (intro parse_fuel_mono(1) [OF _ b(2)]) (simp add: k_def)
      moreover have "parse_elements k dp (skip_ws ds) = Some (ws, r)"
        using b(1) c(1) l l2 by (intro parse_fuel_mono(2) [OF _ c(2)]) (simp add: k_def)
      ultimately show ?thesis using sk True vs lr unfolding k by (simp del: parse_value.simps)
    next
      case False
      with h pv sk have x: "d = CHR '']''" "vs = [w]" "r = ds" by (auto split: if_splits)
      from b(1) l x have lr: "length r < length s" by simp
      define k where "k = length s - length r - 1"
      have k: "length s - length r = Suc k" using lr by (simp add: k_def)
      have "parse_value k dp s = Some (w, r1)"
        using b(1) l x by (intro parse_fuel_mono(1) [OF _ b(2)]) (simp add: k_def)
      then show ?thesis using sk x lr unfolding k by (simp del: parse_value.simps)
    qed
  next
    case 3
    note h = "3"
    then obtain key s' where mk: "member_key s = Some (key, s')" by (auto split: option.splits)
    from h mk obtain w r1 where pv: "parse_value n dp s' = Some (w, r1)" by (auto split: option.splits)
    from h mk pv obtain d ds where sk: "skip_ws r1 = d # ds" by (auto split: list.splits)
    from mk have ls: "length s' < length s" by (rule member_key_shorter)
    from IH(1) [OF pv] have b: "length r1 < length s'"
      "parse_value (length s' - length r1) dp s' = Some (w, r1)" by auto
    have l: "length (d # ds) \<le> length r1" using skip_ws_length [of r1] sk by simp
    show ?case
    proof (cases "d = CHR '',''")
      case True
      with h mk pv sk obtain ws where pm: "parse_members n dp (skip_ws ds) = Some (ws, r)"
        and ms: "ms = (key, take (length s' - length r1) s', w) # ws"
        by (auto split: option.splits)
      from IH(3) [OF pm] have c: "length r < length (skip_ws ds)"
        "parse_members (length (skip_ws ds) - length r) dp (skip_ws ds) = Some (ws, r)" by auto
      have l2: "length (skip_ws ds) \<le> length ds" by (rule skip_ws_length)
      from b(1) c(1) l l2 ls have lr: "length r < length s" by simp
      define k where "k = length s - length r - 1"
      have k: "length s - length r = Suc k" using lr by (simp add: k_def)
      have "parse_value k dp s' = Some (w, r1)"
        using b(1) c(1) l l2 ls by (intro parse_fuel_mono(1) [OF _ b(2)]) (simp add: k_def)
      moreover have "parse_members k dp (skip_ws ds) = Some (ws, r)"
        using b(1) c(1) l l2 ls by (intro parse_fuel_mono(3) [OF _ c(2)]) (simp add: k_def)
      ultimately show ?thesis using mk sk True ms lr unfolding k by (simp del: parse_value.simps)
    next
      case False
      with h mk pv sk have x: "d = CHR ''}''" "ms = [(key, take (length s' - length r1) s', w)]" "r = ds"
        by (auto split: if_splits)
      from b(1) l x ls have lr: "length r < length s" by simp
      define k where "k = length s - length r - 1"
      have k: "length s - length r = Suc k" using lr by (simp add: k_def)
      have "parse_value k dp s' = Some (w, r1)"
        using b(1) l x ls by (intro parse_fuel_mono(1) [OF _ b(2)]) (simp add: k_def)
      then show ?thesis using mk sk x lr unfolding k by (simp del: parse_value.simps)
    qed
  }
qed

text \<open>No input uses up the fuel that \<open>parse_json\<close> and \<open>parse_object\<close> give.\<close>

lemma parse_value_fuel:
  assumes "parse_value n dp s = Some x" "length s \<le> m"
  shows "parse_value m dp s = Some x"
proof -
  obtain v r where x: "x = (v, r)" by (cases x)
  from assms(1) have "parse_value (length s - length r) dp s = Some (v, r)"
    unfolding x by (rule parse_fuel_bound(1) [THEN conjunct2])
  moreover have "length s - length r \<le> m" using assms(2) by simp
  ultimately show ?thesis unfolding x by (rule parse_fuel_mono(1) [rotated])
qed

lemma parse_members_fuel:
  assumes "parse_members n dp s = Some x" "length s \<le> m"
  shows "parse_members m dp s = Some x"
proof -
  obtain ms r where x: "x = (ms, r)" by (cases x)
  from assms(1) have "parse_members (length s - length r) dp s = Some (ms, r)"
    unfolding x by (rule parse_fuel_bound(3) [THEN conjunct2])
  moreover have "length s - length r \<le> m" using assms(2) by simp
  ultimately show ?thesis unfolding x by (rule parse_fuel_mono(3) [rotated])
qed

text \<open>So \<open>parse_json\<close> finds a value whenever some amount of fuel does.\<close>

lemma parse_json_fuel:
  assumes "parse_value n 0 (skip_ws s) = Some (v, r)" "skip_ws r = []"
  shows "parse_json s = Some v"
proof -
  have "length (skip_ws s) \<le> Suc (length s)" using skip_ws_length [of s] by simp
  with assms(1) have "parse_value (Suc (length s)) 0 (skip_ws s) = Some (v, r)"
    by (rule parse_value_fuel)
  with assms(2) show ?thesis by (simp add: parse_json_def)
qed

text \<open>
  The envelope is decoded from the members of a text already found to be an object:
  they are always there.
\<close>

lemma parse_scalar_not_object: "parse_scalar s \<noteq> Some (JObject ms, r)"
  by (auto simp add: parse_scalar_def split: list.splits option.splits if_splits)

lemma parse_object_of_parse_json:
  assumes "parse_json s = Some (JObject ms)"
  shows "\<exists>ts. parse_object s = Some ts \<and> map (\<lambda>(k, raw, v). (k, v)) ts = ms"
proof -
  from assms obtain r where
    pv: "parse_value (Suc (length s)) 0 (skip_ws s) = Some (JObject ms, r)"
    by (auto simp add: parse_json_def split: option.splits if_splits)
  then obtain c cs where s: "skip_ws s = c # cs" by (cases "skip_ws s") auto
  have c: "c = CHR ''{''"
  proof (rule ccontr)
    assume "c \<noteq> CHR ''{''"
    with pv s show False
      by (auto simp add: parse_scalar_not_object split: if_splits list.splits option.splits)
  qed
  from pv s c obtain d ds where sk: "skip_ws cs = d # ds"
    by (auto split: if_splits list.splits)
  show ?thesis
  proof (cases "d = CHR ''}''")
    case True
    with pv s c sk show ?thesis by (auto simp add: parse_object_def split: if_splits)
  next
    case False
    with pv s c sk obtain ts r' where
      "parse_members (length s) (Suc 0) (d # ds) = Some (ts, r')"
      "ms = map (\<lambda>(k, raw, v). (k, v)) ts"
      by (auto split: if_splits option.splits)
    with s c sk False show ?thesis by (simp add: parse_object_def)
  qed
qed

section \<open>Decoding concrete frames\<close>

lemma parse_json_empty: "parse_json [] = None"
  by code_simp

lemma Unmarshal_iface_empty: "Unmarshal_iface cd [] p = Inl SyntaxError"
  by (simp add: Unmarshal_iface_def store_iface_def parse_json_empty)

lemma Unmarshal_not_json: \<open>Unmarshal_message ''not json'' = Inl SyntaxError\<close>
  by code_simp


lemma Unmarshal_ping:
  \<open>Unmarshal_message ''{"id":"7","method":"ping"}'' =
     Inr \<lparr>msg_ID = ''7'', msg_Method = ''ping'', msg_Params = [], msg_Result = [],
          msg_Error = None\<rparr>\<close>
  by code_simp

lemma Unmarshal_result_42:
  \<open>Unmarshal_message ''{"id":"7","result":42}'' =
     Inr \<lparr>msg_ID = ''7'', msg_Method = [], msg_Params = [], msg_Result = ''42'',
          msg_Error = None\<rparr>\<close>
  by code_simp

lemma Unmarshal_method_not_found:
  \<open>Unmarshal_message ''{"id":"7","error":{"code":-32601,"message":"method not found"}}'' =
     Inr \<lparr>msg_ID = ''7'', msg_Method = [], msg_Params = [], msg_Result = [],
          msg_Error = Some \<lparr>rerr_Code = - 32601, rerr_Message = ''method not found'',
            rerr_Data = []\<rparr>\<rparr>\<close>
  by code_simp

lemma Unmarshal_notify:
  \<open>Unmarshal_message ''{"method":"notify","params":[1,2,3]}'' =
     Inr \<lparr>msg_ID = [], msg_Method = ''notify'', msg_Params = ''[1,2,3]'', msg_Result = [],
          msg_Error = None\<rparr>\<close>
  by code_simp

lemma parse_json_42: \<open>parse_json ''42'' = Some (JNumber ''42'')\<close>
  by code_simp

lemma Unmarshal_id_only:
  \<open>Unmarshal_message ''{"id":"7"}'' =
     Inr \<lparr>msg_ID = ''7'', msg_Method = [], msg_Params = [], msg_Result = [], msg_Error = None\<rparr>\<close>
  by code_simp

lemma Unmarshal_ping_x:
  \<open>Unmarshal_message ''{"id":"7","method":"ping","params":"x"}'' =
     Inr \<lparr>msg_ID = ''7'', msg_Method = ''ping'', msg_Params = ''"x"'', msg_Result = [],
          msg_Error = None\<rparr>\<close>
  by code_simp

lemma parse_json_x: \<open>parse_json ''"x"'' = Some (JString ''x'')\<close>
  by code_simp


lemma int_of_literal_42: "int_of_literal ''42'' = Some 42"
  by code_simp

lemma conn_of_frame:
  "conn_of (data # frames) = (conn_of frames)\<lparr>pending := Inr data # map Inr frames\<rparr>"
  by (simp add: conn_of_def)

section \<open>What \<open>ReadMsg\<close> returns\<close>

text \<open>
  Once the frame is read and the envelope decoded, the results are decided by which of
  \<open>id\<close> and \<open>method\<close> are empty and by the decoding of the raw fields.
\<close>

lemma ReadMsg_decoded:
  "Unmarshal_message data = Inr m \<Longrightarrow>
   ReadMsg cd (c\<lparr>pending := Inr data # ps\<rparr>) rd pd =
     (if msg_ID m \<noteq> [] then
        if msg_Method m \<noteq> [] then
          (case Unmarshal_iface cd (msg_Params m) pd of
             Inl err \<Rightarrow> (None, None, None, Some err)
           | Inr p \<Rightarrow>
               (Some \<lparr>req_ID = msg_ID m, req_Method = msg_Method m, req_Params = p\<rparr>,
                None, None, None))
        else
          (case (if msg_Result m \<noteq> [] then Unmarshal_iface cd (msg_Result m) rd else Inr rd) of
             Inl err \<Rightarrow> (None, None, None, Some err)
           | Inr r \<Rightarrow>
               (case msg_Error m of
                  None \<Rightarrow> (None, Some \<lparr>res_ID = msg_ID m, res_Result = r, res_Error = None\<rparr>, None, None)
                | Some e \<Rightarrow>
                    (case Unmarshal_iface cd (rerr_Data e) Nil of
                       Inl err \<Rightarrow>
                         (None,
                          Some \<lparr>res_ID = msg_ID m, res_Result = r,
                                res_Error = Some \<lparr>err_Code = rerr_Code e,
                                  err_Message = rerr_Message e, err_Data = Nil\<rparr>\<rparr>,
                          None, Some err)
                     | Inr d \<Rightarrow>
                         (None,
                          Some \<lparr>res_ID = msg_ID m, res_Result = r,
                                res_Error = Some \<lparr>err_Code = rerr_Code e,
                                  err_Message = rerr_Message e, err_Data = d\<rparr>\<rparr>,
                          None, None))))
      else
        (None, None,
         (if msg_Method m \<noteq> []
          then Some \<lparr>not_Method = msg_Method m, not_Params = Raw (msg_Params m)\<rparr>
          else None),
         Some MalformedMessage),
      c\<lparr>pending := ps, reads := Suc (reads c)\<rparr>)"
  by (simp add: ReadMsg_def conn_Read_def split: sum.splits option.splits)


text \<open>
  The part of C1 that the code keeps: a call that returns no error returns exactly one
  message, a request or a response.
\<close>

lemma ReadMsg_success_one_message:
  "fst (ReadMsg cd c rd pd) = (req, res, nt, None) \<Longrightarrow>
   nt = None \<and> ((req \<noteq> None \<and> res = None) \<or> (req = None \<and> res \<noteq> None))"
  by (auto simp add: ReadMsg_def conn_Read_def
      split: sum.splits option.splits list.splits if_splits)

text \<open>
  C1. For every call of \<open>ReadMsg\<close>: on success exactly one of the three pointers is set,
  on error all three are nil. The code breaks the second half: for a notification it
  sets \<open>not\<close> and then falls through to the error of a malformed message. The frame
  \<open>{"method":"notify","params":[1,2,3]}\<close> comes back with the notification and the error.
\<close>

theorem C1_notification_with_error:
  \<open>fst (ReadMsg cd (c\<lparr>pending := Inr ''{"method":"notify","params":[1,2,3]}'' # ps\<rparr>) rd pd) =
     (None, None, Some \<lparr>not_Method = ''notify'', not_Params = Raw ''[1,2,3]''\<rparr>,
      Some MalformedMessage)\<close>
  by (simp add: ReadMsg_decoded [OF Unmarshal_notify])

text \<open>
  C2. A message with id and method is classified and returned as a request, one with an
  id and no method as a response. As stated this fails: the branch is chosen by id and
  method alone, but a request is returned only if its params decode into the caller's
  target, a response only if its result does.
\<close>

theorem C2_counterexample:
  \<open>Unmarshal_message ''{"id":"7","method":"ping","params":"x"}'' =
     Inr \<lparr>msg_ID = ''7'', msg_Method = ''ping'', msg_Params = ''"x"'', msg_Result = [],
          msg_Error = None\<rparr> \<and>
   fst (ReadMsg int_var (conn_of [''{"id":"7","method":"ping","params":"x"}'']) Nil (Ptr 0)) =
     (None, None, None, Some UnmarshalTypeError)\<close>
  by (simp add: Unmarshal_ping_x conn_of_frame ReadMsg_decoded [OF Unmarshal_ping_x]
      Unmarshal_iface_def store_iface_def parse_json_x int_var_def)

text \<open>
  C2, amended. For a decoded message with an id, \<open>ReadMsg\<close> never returns a notification;
  with a method it returns no response and, when the params are present, the request
  with that id and method exactly when the params decode (otherwise the decoding error
  alone); without a method it returns no request, and a response with that id exactly
  when the result, if present, decodes.
\<close>

theorem C2_branch_by_id_and_method:
  "Unmarshal_message data = Inr m \<Longrightarrow> msg_ID m \<noteq> [] \<Longrightarrow>
   (case fst (ReadMsg cd (c\<lparr>pending := Inr data # ps\<rparr>) rd pd) of
      (req, res, nt, err) \<Rightarrow>
        nt = None \<and>
        (if msg_Method m \<noteq> [] then
           res = None \<and>
           (msg_Params m \<noteq> [] \<longrightarrow>
              (case Unmarshal_iface cd (msg_Params m) pd of
                 Inl e \<Rightarrow> req = None \<and> err = Some e
               | Inr p \<Rightarrow>
                   req = Some \<lparr>req_ID = msg_ID m, req_Method = msg_Method m, req_Params = p\<rparr> \<and>
                   err = None))
         else
           req = None \<and>
           (case (if msg_Result m \<noteq> [] then Unmarshal_iface cd (msg_Result m) rd else Inr rd) of
              Inl e \<Rightarrow> res = None \<and> err = Some e
            | Inr r \<Rightarrow> (\<exists>resp. res = Some resp \<and> res_ID resp = msg_ID m \<and> res_Result resp = r))))"
  by (simp add: ReadMsg_decoded split: sum.splits option.splits)

theorem C2_branch_by_id_and_method_witness:
  \<open>fst (ReadMsg int_var (conn_of [''{"id":"7","method":"ping","params":"x"}'']) Nil Nil) =
     (Some \<lparr>req_ID = ''7'', req_Method = ''ping'', req_Params = Val (JString ''x'')\<rparr>,
      None, None, None) \<and>
   fst (ReadMsg int_var (conn_of [''{"id":"7","result":42}'']) Nil Nil) =
     (None, Some \<lparr>res_ID = ''7'', res_Result = Val (JNumber ''42''), res_Error = None\<rparr>,
      None, None)\<close>
  using C2_branch_by_id_and_method [OF Unmarshal_ping_x, where cd = int_var and c = "conn_of []"
      and ps = "[]" and rd = Nil and pd = Nil]
    C2_branch_by_id_and_method [OF Unmarshal_result_42, where cd = int_var and c = "conn_of []"
      and ps = "[]" and rd = Nil and pd = Nil]
  by (simp add: conn_of_frame ReadMsg_decoded [OF Unmarshal_ping_x]
      ReadMsg_decoded [OF Unmarshal_result_42] Unmarshal_iface_def store_iface_def parse_json_42 parse_json_x)

text \<open>
  C3. A message with a method and no id comes back as a notification with no error. The
  code returns the notification together with the error of a malformed message, and
  its params are the raw bytes, not a decoded sequence.
\<close>

theorem C3_notification_branch:
  "Unmarshal_message data = Inr m \<Longrightarrow> msg_ID m = [] \<Longrightarrow> msg_Method m \<noteq> [] \<Longrightarrow>
   fst (ReadMsg cd (c\<lparr>pending := Inr data # ps\<rparr>) rd pd) =
     (None, None, Some \<lparr>not_Method = msg_Method m, not_Params = Raw (msg_Params m)\<rparr>,
      Some MalformedMessage)"
  by (simp add: ReadMsg_decoded)

theorem C3_notification_branch_witness:
  \<open>fst (ReadMsg int_var (conn_of [''{"method":"notify","params":[1,2,3]}'']) Nil Nil) =
     (None, None, Some \<lparr>not_Method = ''notify'', not_Params = Raw ''[1,2,3]''\<rparr>,
      Some MalformedMessage)\<close>
  using C3_notification_branch [OF Unmarshal_notify, where cd = int_var and c = "conn_of []"
      and ps = "[]" and rd = Nil and pd = Nil]
  by (simp add: conn_of_frame)

text \<open>
  C4. A response whose error object has no \<open>data\<close> decodes without error. The code
  decodes the absent data all the same, which is a syntax error (the end of the input
  where a value should start): the response is returned, and the error with it.
\<close>

theorem C4_error_without_data:
  \<open>fst (ReadMsg cd
          (c\<lparr>pending := Inr ''{"id":"7","error":{"code":-32601,"message":"method not found"}}'' # ps\<rparr>)
          rd pd) =
     (None,
      Some \<lparr>res_ID = ''7'', res_Result = rd,
            res_Error = Some \<lparr>err_Code = - 32601, err_Message = ''method not found'',
              err_Data = Nil\<rparr>\<rparr>,
      None, Some SyntaxError)\<close>
  by (simp add: ReadMsg_decoded [OF Unmarshal_method_not_found] Unmarshal_iface_empty)

text \<open>
  C5. A request without \<open>params\<close> decodes to a request with nil params. The code decodes
  the absent params all the same and returns the syntax error, and no request.
\<close>

theorem C5_request_without_params:
  \<open>fst (ReadMsg cd (c\<lparr>pending := Inr ''{"id":"7","method":"ping"}'' # ps\<rparr>) rd pd) =
     (None, None, None, Some SyntaxError)\<close>
  by (simp add: ReadMsg_decoded [OF Unmarshal_ping] Unmarshal_iface_empty)




text \<open>
  C7. In a response the result is decoded into the caller's target only if it is
  present; when it is absent the decoding is skipped and the result is what the caller
  passed (nil when nothing was passed). The frame \<open>{"id":"7","result":42}\<close> gives the
  response with id 7, result 42 and no error.
\<close>

theorem C7_result_decoded_if_present:
  \<open>(Unmarshal_message data = Inr m \<and> msg_ID m \<noteq> [] \<and> msg_Method m = [] \<longrightarrow>
      (case fst (ReadMsg cd (c\<lparr>pending := Inr data # ps\<rparr>) rd pd) of
         (req, res, nt, err) \<Rightarrow>
           req = None \<and> nt = None \<and>
           (if msg_Result m = [] then
              (\<exists>resp. res = Some resp \<and> res_ID resp = msg_ID m \<and> res_Result resp = rd)
            else
              (case Unmarshal_iface cd (msg_Result m) rd of
                 Inl e \<Rightarrow> res = None \<and> err = Some e
               | Inr r \<Rightarrow> (\<exists>resp. res = Some resp \<and> res_ID resp = msg_ID m \<and> res_Result resp = r))))) \<and>
   fst (ReadMsg cd (c\<lparr>pending := Inr ''{"id":"7","result":42}'' # ps\<rparr>) Nil pd) =
     (None, Some \<lparr>res_ID = ''7'', res_Result = Val (JNumber ''42''), res_Error = None\<rparr>, None, None)\<close>
proof (intro conjI impI)
  assume "Unmarshal_message data = Inr m \<and> msg_ID m \<noteq> [] \<and> msg_Method m = []"
  then show "case fst (ReadMsg cd (c\<lparr>pending := Inr data # ps\<rparr>) rd pd) of
         (req, res, nt, err) \<Rightarrow>
           req = None \<and> nt = None \<and>
           (if msg_Result m = [] then
              (\<exists>resp. res = Some resp \<and> res_ID resp = msg_ID m \<and> res_Result resp = rd)
            else
              (case Unmarshal_iface cd (msg_Result m) rd of
                 Inl e \<Rightarrow> res = None \<and> err = Some e
               | Inr r \<Rightarrow> (\<exists>resp. res = Some resp \<and> res_ID resp = msg_ID m \<and> res_Result resp = r)))"
    by (simp add: ReadMsg_decoded split: sum.splits option.splits)
next
  show \<open>fst (ReadMsg cd (c\<lparr>pending := Inr ''{"id":"7","result":42}'' # ps\<rparr>) Nil pd) =
     (None, Some \<lparr>res_ID = ''7'', res_Result = Val (JNumber ''42''), res_Error = None\<rparr>, None, None)\<close>
    by (simp add: ReadMsg_decoded [OF Unmarshal_result_42] Unmarshal_iface_def store_iface_def parse_json_42)
qed

theorem C7_result_decoded_if_present_witness:
  \<open>fst (ReadMsg int_var (conn_of [''{"id":"7"}'']) (Ptr 5) Nil) =
     (None, Some \<lparr>res_ID = ''7'', res_Result = Ptr 5, res_Error = None\<rparr>, None, None) \<and>
   fst (ReadMsg int_var (conn_of [''{"id":"7","result":42}'']) (Ptr 5) Nil) =
     (None, Some \<lparr>res_ID = ''7'', res_Result = Ptr 42, res_Error = None\<rparr>, None, None) \<and>
   fst (ReadMsg int_var (conn_of [''{"id":"7","result":42}'']) Nil Nil) =
     (None, Some \<lparr>res_ID = ''7'', res_Result = Val (JNumber ''42''), res_Error = None\<rparr>, None, None)\<close>
  using C7_result_decoded_if_present [where data = \<open>''{"id":"7"}''\<close> and cd = int_var
      and c = "conn_of []" and ps = "[]" and rd = "Ptr 5" and pd = Nil
      and m = "\<lparr>msg_ID = ''7'', msg_Method = [], msg_Params = [], msg_Result = [], msg_Error = None\<rparr>"]
    C7_result_decoded_if_present [where data = \<open>''{"id":"7","result":42}''\<close> and cd = int_var
      and c = "conn_of []" and ps = "[]" and rd = "Ptr 5" and pd = Nil
      and m = "\<lparr>msg_ID = ''7'', msg_Method = [], msg_Params = [], msg_Result = ''42'', msg_Error = None\<rparr>"]
  by (simp add: conn_of_frame ReadMsg_decoded [OF Unmarshal_id_only]
      ReadMsg_decoded [OF Unmarshal_result_42] Unmarshal_iface_def store_iface_def parse_json_42 int_var_def
      int_of_literal_42)

section \<open>Round trip of the JSON encoding\<close>

subsection \<open>Strings\<close>












lemma emit_Some [simp]: "emit out (Some (str, rest)) = Some (out @ str, rest)"
  by (simp add: emit_def)

lemma emit_None [simp]: "emit out None = None"
  by (simp add: emit_def)




subsection \<open>Numbers\<close>












subsection \<open>Values\<close>

lemma skip_ws_Nil [simp]: "skip_ws [] = []"
  by (simp add: skip_ws_def)

lemma skip_ws_nonspace: "\<not> is_space c \<Longrightarrow> skip_ws (c # x) = c # x"
  by (simp add: skip_ws_def)

lemma quote_Cons: "quote s = CHR 0x22 # quote_body s @ [CHR 0x22]"
  by (simp add: quote_def)







lemma value_start_Cons:
  "\<not> is_space c \<Longrightarrow> c \<noteq> CHR '']'' \<Longrightarrow> c \<noteq> CHR ''}'' \<Longrightarrow> c \<noteq> CHR '','' \<Longrightarrow> c \<noteq> CHR '':'' \<Longrightarrow>
   value_start (c # x)"
  by (simp add: value_start_def)


lemma delimited_simps [simp]:
  "delimited []" "delimited (CHR '','' # x)" "delimited (CHR '']'' # x)" "delimited (CHR ''}'' # x)"
  by (simp_all add: delimited_def)

lemma skip_ws_delims [simp]:
  "skip_ws (CHR '','' # x) = CHR '','' # x" "skip_ws (CHR '']'' # x) = CHR '']'' # x"
  "skip_ws (CHR ''}'' # x) = CHR ''}'' # x" "skip_ws (CHR '':'' # x) = CHR '':'' # x"
  "skip_ws (CHR 0x22 # x) = CHR 0x22 # x"
  by (simp_all add: skip_ws_def is_space_def)

















section \<open>Writing\<close>

text \<open>
  C9. \<open>WriteRequest\<close> asks the generator for an identifier before it writes. If the
  generator fails, its error is returned and the connection is left as it was; otherwise
  the identifier returned is the one in the request handed to \<open>WriteMsg\<close>, whose
  encoding is the frame written when the call succeeds.
\<close>

theorem C9_WriteRequest_generator_first:
  "(GenID g = (Inl e, g') \<longrightarrow>
      WriteRequest cd tg g c meth params = (([], Some e), g', c)) \<and>
   (GenID g = (Inr ident, g') \<longrightarrow>
      (case WriteRequest cd tg g c meth params of
         ((reqID, err), g'', c') \<Rightarrow>
           reqID = ident \<and> g'' = g' \<and>
           (err, c') =
             WriteMsg cd tg c (MRequest \<lparr>req_ID = ident, req_Method = meth, req_Params = params\<rparr>) \<and>
           (err = None \<longrightarrow>
              (\<exists>data. Marshal cd tg (MRequest \<lparr>req_ID = reqID, req_Method = meth, req_Params = params\<rparr>) = Inr data \<and>
                 written c' = written c @ [data] \<and> writes c' = Suc (writes c)))))"
  by (auto simp add: WriteRequest_def WriteMsg_def conn_Write_def
      split: sum.splits option.splits prod.splits list.splits)

theorem C9_WriteRequest_generator_first_witness:
  \<open>WriteRequest int_var plain_tags [Inl (GenIDError ''no entropy'')] (conn_of []) ''ping'' Nil =
     (([], Some (GenIDError ''no entropy'')), [], conn_of []) \<and>
   fst (WriteRequest int_var plain_tags [Inr ''7''] (conn_of []) ''ping'' Nil) = (''7'', None) \<and>
   written (snd (snd (WriteRequest int_var plain_tags [Inr ''7''] (conn_of []) ''ping'' Nil))) =
     [''{"id":"7","method":"ping","params":null}'']\<close>
  using C9_WriteRequest_generator_first [where g = "[Inl (GenIDError ''no entropy'')]"
      and e = "GenIDError ''no entropy''" and g' = "[]" and cd = int_var and tg = plain_tags
      and c = "conn_of []" and meth = "''ping''" and params = Nil]
    C9_WriteRequest_generator_first [where g = "[Inr ''7'']" and ident = "''7''" and g' = "[]"
      and cd = int_var and tg = plain_tags and c = "conn_of []" and meth = "''ping''"
      and params = Nil]
  by (simp add: GenID_def WriteRequest_def WriteMsg_def Marshal_def Marshal_Request_def
      conn_Write_def conn_of_def plain_tags_def entry_def object_text_def quote_def html_safe_def)

lemma ReadMsg_one_Read: "snd (ReadMsg cd c rd pd) = snd (conn_Read c)"
  by (simp add: ReadMsg_def split: prod.splits sum.splits option.splits)

lemma ReadMsg_frame:
  "pending (snd (ReadMsg cd c rd pd)) = drop 1 (pending c) \<and>
   reads (snd (ReadMsg cd c rd pd)) = Suc (reads c) \<and>
   writes (snd (ReadMsg cd c rd pd)) = writes c \<and>
   written (snd (ReadMsg cd c rd pd)) = written c \<and>
   wscript (snd (ReadMsg cd c rd pd)) = wscript c"
  by (simp add: ReadMsg_def conn_Read_def split: sum.splits option.splits list.splits)

lemma WriteMsg_frame:
  "writes (snd (WriteMsg cd tg c m)) \<le> Suc (writes c) \<and>
   reads (snd (WriteMsg cd tg c m)) = reads c \<and>
   pending (snd (WriteMsg cd tg c m)) = pending c"
  by (simp add: WriteMsg_def conn_Write_def split: sum.splits option.splits list.splits)

lemma WriteRequest_frame:
  "writes (snd (snd (WriteRequest cd tg g c meth params))) \<le> Suc (writes c) \<and>
   reads (snd (snd (WriteRequest cd tg g c meth params))) = reads c \<and>
   pending (snd (snd (WriteRequest cd tg g c meth params))) = pending c"
proof (cases "GenID g")
  case (Pair r g')
  show ?thesis
  proof (cases r)
    case (Inl e)
    with Pair show ?thesis by (simp add: WriteRequest_def)
  next
    case (Inr ident)
    with Pair WriteMsg_frame [of cd tg c "MRequest \<lparr>req_ID = ident, req_Method = meth, req_Params = params\<rparr>"]
    show ?thesis by (auto simp add: WriteRequest_def split: prod.splits)
  qed
qed

text \<open>
  C10. With the connection as a read side and a write side: a call of \<open>ReadMsg\<close> is one
  read and no write, whatever the decoding does: it leaves the connection as one call of
  \<open>Read\<close> does, which takes the first pending frame and nothing else. A call of any write
  operation is at most one write and no read, and leaves the read side as it was.
\<close>

theorem C10_reads_and_writes:
  "(snd (ReadMsg cd c rd pd) = snd (conn_Read c) \<and>
    pending (snd (ReadMsg cd c rd pd)) = drop 1 (pending c) \<and>
    reads (snd (ReadMsg cd c rd pd)) = Suc (reads c) \<and>
    writes (snd (ReadMsg cd c rd pd)) = writes c \<and>
    written (snd (ReadMsg cd c rd pd)) = written c \<and>
    wscript (snd (ReadMsg cd c rd pd)) = wscript c) \<and>
   (writes (snd (WriteMsg cd tg c m)) \<le> Suc (writes c) \<and>
    reads (snd (WriteMsg cd tg c m)) = reads c \<and>
    pending (snd (WriteMsg cd tg c m)) = pending c) \<and>
   (writes (snd (snd (WriteRequest cd tg g c meth params))) \<le> Suc (writes c) \<and>
    reads (snd (snd (WriteRequest cd tg g c meth params))) = reads c \<and>
    pending (snd (snd (WriteRequest cd tg g c meth params))) = pending c) \<and>
   (writes (snd (snd (WriteRequestArr cd tg g c meth ps))) \<le> Suc (writes c) \<and>
    reads (snd (snd (WriteRequestArr cd tg g c meth ps))) = reads c \<and>
    pending (snd (snd (WriteRequestArr cd tg g c meth ps))) = pending c) \<and>
   (writes (snd (WriteNotification cd tg c meth params)) \<le> Suc (writes c) \<and>
    reads (snd (WriteNotification cd tg c meth params)) = reads c \<and>
    pending (snd (WriteNotification cd tg c meth params)) = pending c) \<and>
   (writes (snd (WriteNotificationArr cd tg c meth ps)) \<le> Suc (writes c) \<and>
    reads (snd (WriteNotificationArr cd tg c meth ps)) = reads c \<and>
    pending (snd (WriteNotificationArr cd tg c meth ps)) = pending c) \<and>
   (writes (snd (WriteResponse cd tg c ident result rerr)) \<le> Suc (writes c) \<and>
    reads (snd (WriteResponse cd tg c ident result rerr)) = reads c \<and>
    pending (snd (WriteResponse cd tg c ident result rerr)) = pending c)"
  unfolding WriteRequestArr_def WriteNotificationArr_def WriteNotification_def WriteResponse_def
  using ReadMsg_one_Read ReadMsg_frame WriteMsg_frame WriteRequest_frame by blast

end
